theory Spec2Isabelle
  imports Main "HOL-Library.AList" "HOL-Library.Char_ord" "HOL-Library.List_Lexorder"
begin

section \<open>Strings, tokens and integers as Python reads them\<close>

text \<open>
  A Python \<open>str\<close> is modelled as a \<open>string\<close> whose characters are the code points
  below 256. \<open>isspace\<close> is \<open>str.isspace\<close> on one such code point: the ASCII white space
  (9 to 13, 28 to 31 and 32) together with NEL (133) and the no-break space (160).
\<close>

definition isspace :: "char \<Rightarrow> bool" where
  "isspace c = (of_char c \<in> set [9, 10, 11, 12, 13, 28, 29, 30, 31, 32, 133, 160 :: nat])"

text \<open>\<open>str.strip()\<close> without argument: white space removed at both ends.\<close>

definition strip :: "string \<Rightarrow> string" where
  "strip s = rev (dropWhile isspace (rev (dropWhile isspace s)))"

text \<open>
  \<open>str.split()\<close> without argument: the maximal runs of characters that are not white
  space, in order; no empty token is ever produced.
\<close>

fun split_acc :: "string \<Rightarrow> string \<Rightarrow> string list" where
  "split_acc cur [] = (if cur = [] then [] else [rev cur])"
| "split_acc cur (c # cs) =
     (if isspace c then (if cur = [] then split_acc [] cs else rev cur # split_acc [] cs)
      else split_acc (c # cur) cs)"

definition split :: "string \<Rightarrow> string list" where
  "split s = split_acc [] s"

text \<open>
  The builtin \<open>int(s)\<close> on a string, base ten: surrounding white space is dropped, one
  optional sign, then decimal digits in which single underscores may stand between two
  digits. \<open>None\<close> is the \<open>ValueError\<close> of the builtin. (The interpreter's configurable
  ceiling on the number of digits is left out.)
\<close>

definition isdigit :: "char \<Rightarrow> bool" where
  "isdigit c = (48 \<le> (of_char c :: nat) \<and> (of_char c :: nat) \<le> 57)"

definition digit_value :: "char \<Rightarrow> int" where
  "digit_value c = int (of_char c) - 48"

fun int_digits :: "bool \<Rightarrow> int \<Rightarrow> string \<Rightarrow> int option" where
  "int_digits prev acc [] = (if prev then Some acc else None)"
| "int_digits prev acc (c # cs) =
     (if isdigit c then int_digits True (acc * 10 + digit_value c) cs
      else if c = CHR ''_'' \<and> prev then int_digits False acc cs
      else None)"

definition py_int :: "string \<Rightarrow> int option" where
  "py_int s =
     (case strip s of
        [] \<Rightarrow> None
      | c # cs \<Rightarrow>
          if c = CHR ''+'' then int_digits False 0 cs
          else if c = CHR ''-'' then map_option uminus (int_digits False 0 cs)
          else int_digits False 0 (c # cs))"

text \<open>\<open>str(n)\<close> for a natural number, as the f-strings of the source print counters.\<close>

fun str_nat :: "nat \<Rightarrow> string" where
  "str_nat n =
     (if n < 10 then [''0123456789'' ! n]
      else str_nat (n div 10) @ [''0123456789'' ! (n mod 10)])"

declare str_nat.simps [simp del]

section \<open>The exceptions of the program\<close>

text \<open>
  \<open>ValueError\<close> is raised by \<open>int\<close>, \<open>KeyError k\<close> by \<open>obj[k]\<close> on a dictionary without
  the key \<open>k\<close>, \<open>IndexError\<close> by \<open>xs[0]\<close> on an empty list, and \<open>SystemExit n\<close> is
  \<open>sys.exit(n)\<close>.
\<close>

datatype error = ValueError | KeyError string | IndexError | SystemExit nat

section \<open>FMCRouteConverter: the object caches\<close>

text \<open>
  An FMC object is the JSON dictionary the listing returns, kept as the list of its
  (field, value) pairs and read with \<open>map_of\<close>. The two caches \<open>network_objects\<close> and
  \<open>host_objects\<close> are Python dictionaries from a key string to such an object: an
  association list written with \<open>AList.update\<close> (\<open>d[k] = v\<close>: the value of an existing
  key is replaced, a new key is appended) and read with \<open>map_of\<close>; \<open>len(d)\<close> is its length.
\<close>

type_synonym fmc_object = "(string \<times> string) list"

type_synonym cache = "(string \<times> fmc_object) list"

record converter =
  network_objects :: cache
  host_objects :: cache

text \<open>\<open>__init__\<close>: both caches start empty.\<close>

definition init :: converter where
  "init = \<lparr>network_objects = [], host_objects = []\<rparr>"

text \<open>
  What \<open>requests.get\<close>, \<open>raise_for_status\<close> and \<open>response.json().get('items', [])\<close>
  give together: the listed objects, or a \<open>RequestException\<close> with its message.
\<close>

datatype fetch = RequestException string | Items "fmc_object list"

text \<open>
  The body of the two \<open>for obj in ...\<close> loops of \<open>get_existing_objects\<close>: an object with a
  \<open>name\<close> field is stored under that name and reported with the given label; an object
  without one is passed over. The result is the cache and the lines printed.
\<close>

fun store_objects :: "string \<Rightarrow> cache \<Rightarrow> fmc_object list \<Rightarrow> cache \<times> string list" where
  "store_objects label c [] = (c, [])"
| "store_objects label c (obj # objs) =
     (case map_of obj ''name'' of
        None \<Rightarrow> store_objects label c objs
      | Some n \<Rightarrow>
          (let (c', out) = store_objects label (AList.update n obj c) objs
           in (c', (label @ n) # out)))"

text \<open>One \<open>try\<close> block of \<open>get_existing_objects\<close>: the exception is caught and printed.\<close>

definition fetch_into :: "string \<Rightarrow> string \<Rightarrow> cache \<Rightarrow> fetch \<Rightarrow> cache \<times> string list" where
  "fetch_into label errlabel c r =
     (case r of
        RequestException e \<Rightarrow> (c, [errlabel @ e])
      | Items objs \<Rightarrow> store_objects label c objs)"

definition get_existing_objects :: "converter \<Rightarrow> fetch \<Rightarrow> fetch \<Rightarrow> converter \<times> string list" where
  "get_existing_objects self nets hosts =
     (let (nc, out1) = fetch_into ''Found network object: '' ''Error getting network objects: ''
                         (network_objects self) nets;
          (hc, out2) = fetch_into ''Found host object: '' ''Error getting host objects: ''
                         (host_objects self) hosts
      in (self\<lparr>network_objects := nc, host_objects := hc\<rparr>,
          [''Fetching existing network objects...''] @ out1 @
          [CHR 0x0A # ''Fetching existing host objects...''] @ out2 @
          [CHR 0x0A # ''Total objects found: '' @ str_nat (length nc) @ '' networks, '' @
             str_nat (length hc) @ '' hosts'']))"

text \<open>
  \<open>find_or_create_object(value, mask)\<close>, with the argument \<open>mask\<close> as \<open>msk\<close> and
  Python's \<open>None\<close> as \<open>None\<close>. It returns the line it prints and the object found,
  \<open>None\<close> when the key is not in the cache. \<open>cache[cache_key]['name']\<close> in the printed
  line raises \<open>KeyError\<close> on an object without a name.
\<close>

definition find_or_create_object ::
  "converter \<Rightarrow> string \<Rightarrow> string option \<Rightarrow> string list \<times> (error + fmc_object option)" where
  "find_or_create_object self val msk =
     (let is_host = (msk = Some ''255.255.255.255'' \<or> msk = None);
          cache = (if is_host then host_objects self else network_objects self);
          cache_key = (if is_host then ''obj-'' @ val else (''obj-'' @ val))
      in case map_of cache cache_key of
           Some obj \<Rightarrow>
             (case map_of obj ''name'' of
                None \<Rightarrow> ([], Inl (KeyError ''name''))
              | Some n \<Rightarrow> ([''Found existing object: '' @ n @ '' for '' @ val], Inr (Some obj)))
         | None \<Rightarrow> ([''Warning: No existing object found for '' @ val], Inr None))"

section \<open>parse_and_prepare_routes\<close>

text \<open>
  The first lines of the loop body: \<open>parts = line.strip().split()\<close>, the test
  \<open>len(parts) == 6 and parts[0] == 'route'\<close>, and the five assignments, the last of which
  is \<open>metric = int(parts[5])\<close> and may raise. \<open>Inr None\<close> is the line the test rejects.
\<close>

record route_intent =
  interface :: string
  network :: string
  netmask :: string
  gateway :: string
  metric :: int

definition parse_line :: "string \<Rightarrow> error + route_intent option" where
  "parse_line line =
     (let parts = split (strip line)
      in if length parts = 6 \<and> parts ! 0 = ''route'' then
           (case py_int (parts ! 5) of
              None \<Rightarrow> Inl ValueError
            | Some m \<Rightarrow>
                Inr (Some \<lparr>interface = parts ! 1, network = parts ! 2, netmask = parts ! 3,
                           gateway = parts ! 4, metric = m\<rparr>))
         else Inr None)"

text \<open>
  The route dictionary of the source. \<open>object_ref\<close> is the inner dictionary with the
  keys \<open>type\<close>, \<open>id\<close> and \<open>name\<close>; \<open>gateway_object\<close> is \<open>route["gateway"]["object"]\<close> and
  \<open>route_type\<close> is \<open>route["type"]\<close>.
\<close>

record object_ref =
  ref_type :: string
  ref_id :: string
  ref_name :: string

record route_payload =
  interfaceName :: string
  selectedNetworks :: "object_ref list"
  gateway_object :: object_ref
  metricValue :: int
  route_type :: string
  isTunneled :: bool

text \<open>\<open>{"type": obj['type'], "id": obj['id'], "name": obj['name']}\<close>, read in that order.\<close>

definition object_ref_of :: "fmc_object \<Rightarrow> error + object_ref" where
  "object_ref_of obj =
     (case map_of obj ''type'' of
        None \<Rightarrow> Inl (KeyError ''type'')
      | Some t \<Rightarrow>
          (case map_of obj ''id'' of
             None \<Rightarrow> Inl (KeyError ''id'')
           | Some i \<Rightarrow>
               (case map_of obj ''name'' of
                  None \<Rightarrow> Inl (KeyError ''name'')
                | Some n \<Rightarrow> Inr \<lparr>ref_type = t, ref_id = i, ref_name = n\<rparr>)))"

definition build_route :: "route_intent \<Rightarrow> fmc_object \<Rightarrow> fmc_object \<Rightarrow> error + route_payload" where
  "build_route r net_obj gw_obj =
     (case object_ref_of net_obj of
        Inl e \<Rightarrow> Inl e
      | Inr n \<Rightarrow>
          (case object_ref_of gw_obj of
             Inl e \<Rightarrow> Inl e
           | Inr g \<Rightarrow>
               Inr \<lparr>interfaceName = interface r, selectedNetworks = [n], gateway_object = g,
                    metricValue = metric r, route_type = ''IPv4StaticRoute'',
                    isTunneled = False\<rparr>))"

text \<open>
  The rest of the loop body for a parsed route. The loop state is the list \<open>routes\<close> and
  the set \<open>missing_objects\<close>, kept as a list without repetition (\<open>List.insert\<close> is
  \<open>set.add\<close>). A found object is never an empty dictionary, so \<open>not gw_obj\<close> holds exactly
  for \<open>None\<close>. The result is the lines printed and the new loop state.
\<close>

type_synonym scan = "route_payload list \<times> string list"

definition resolve_route :: "converter \<Rightarrow> route_intent \<Rightarrow> scan \<Rightarrow> string list \<times> (error + scan)" where
  "resolve_route self r st =
     (case find_or_create_object self (gateway r) None of
        (out1, Inl e) \<Rightarrow> (out1, Inl e)
      | (out1, Inr None) \<Rightarrow>
          (out1, Inr (fst st, List.insert (''Gateway: '' @ gateway r) (snd st)))
      | (out1, Inr (Some gw_obj)) \<Rightarrow>
          (case find_or_create_object self (network r) (Some (netmask r)) of
             (out2, Inl e) \<Rightarrow> (out1 @ out2, Inl e)
           | (out2, Inr None) \<Rightarrow>
               (out1 @ out2,
                Inr (fst st,
                     List.insert (''Network: '' @ network r @ ''/'' @ netmask r) (snd st)))
           | (out2, Inr (Some net_obj)) \<Rightarrow>
               (case build_route r net_obj gw_obj of
                  Inl e \<Rightarrow> (out1 @ out2, Inl e)
                | Inr route \<Rightarrow>
                    (out1 @ out2 @
                       [''Prepared route: '' @ network r @ ''/'' @ netmask r @ '' via '' @
                          gateway r],
                     Inr (fst st @ [route], snd st)))))"

definition route_step :: "converter \<Rightarrow> string \<Rightarrow> scan \<Rightarrow> string list \<times> (error + scan)" where
  "route_step self line st =
     (case parse_line line of
        Inl e \<Rightarrow> ([], Inl e)
      | Inr None \<Rightarrow> ([], Inr st)
      | Inr (Some r) \<Rightarrow> resolve_route self r st)"

text \<open>\<open>for line in f\<close>: an exception leaves the loop, and the lines after it are not read.\<close>

fun for_lines :: "converter \<Rightarrow> string list \<Rightarrow> scan \<Rightarrow> string list \<times> (error + scan)" where
  "for_lines self [] st = ([], Inr st)"
| "for_lines self (l # ls) st =
     (case route_step self l st of
        (out, Inl e) \<Rightarrow> (out, Inl e)
      | (out, Inr st') \<Rightarrow>
          (let (out', res) = for_lines self ls st' in (out @ out', res)))"

text \<open>
  The whole method, on the lines of the opened file. After the loop a non-empty
  \<open>missing_objects\<close> is printed in sorted order and the run ends with \<open>sys.exit(1)\<close>.
\<close>

definition parse_and_prepare_routes ::
  "converter \<Rightarrow> string list \<Rightarrow> string list \<times> (error + route_payload list)" where
  "parse_and_prepare_routes self f =
     (case for_lines self f ([], []) of
        (out, Inl e) \<Rightarrow> ((CHR 0x0A # ''Parsing routes and matching objects...'') # out, Inl e)
      | (out, Inr (routes, missing_objects)) \<Rightarrow>
          if missing_objects \<noteq> [] then
            ((CHR 0x0A # ''Parsing routes and matching objects...'') # out @
               [CHR 0x0A # ''WARNING: The following objects were not found in FMC:''] @
               map (\<lambda>obj. ''  - '' @ obj) (sort missing_objects) @
               [CHR 0x0A # ''Please create these objects in FMC before proceeding.''],
             Inl (SystemExit 1))
          else ((CHR 0x0A # ''Parsing routes and matching objects...'') # out, Inr routes))"

section \<open>deploy_routes\<close>

text \<open>
  What the method does to the outside, in order: \<open>Post r\<close> is the \<open>requests.post\<close> of the
  route \<open>r\<close>, \<open>Print s\<close> a printed line, \<open>PrintJson r\<close> the line
  \<open>Failed route details:\<close> with \<open>json.dumps(r, indent=2)\<close>, and \<open>Sleep n\<close> is
  \<open>time.sleep(n)\<close>. These are all the effects the method has.
\<close>

datatype event = Post route_payload | Print string | PrintJson route_payload | Sleep nat

text \<open>
  The FMC is the function \<open>post\<close>: for the \<open>i\<close>-th submission (counted from 1) of a route
  it answers \<open>None\<close> when \<open>requests.post\<close> and \<open>raise_for_status\<close> pass, and \<open>Some e\<close> when
  one of them raises a \<open>RequestException\<close> with the message \<open>e\<close>.
  The variable \<open>total\<close> of the source is \<open>tot\<close>.
  \<open>route['selectedNetworks'][0]\<close> raises \<open>IndexError\<close> on an empty list.
  \<open>submit\<close> is the body of the loop for the \<open>i\<close>-th route.
\<close>

definition submit ::
  "(nat \<Rightarrow> route_payload \<Rightarrow> string option) \<Rightarrow> nat \<Rightarrow> nat \<Rightarrow> route_payload
     \<Rightarrow> event list \<times> (error + unit)" where
  "submit post tot i route =
     (case post i route of
        None \<Rightarrow>
          (case selectedNetworks route of
             [] \<Rightarrow> ([Post route], Inl IndexError)
           | n # ns \<Rightarrow>
               ([Post route,
                 Print (''['' @ str_nat i @ ''/'' @ str_nat tot @
                        ''] Successfully deployed route to '' @ ref_name n)] @
                (if i mod 10 = 0 then [Sleep 1] else []),
                Inr ()))
      | Some e \<Rightarrow>
          (case selectedNetworks route of
             [] \<Rightarrow> ([Post route], Inl IndexError)
           | n # ns \<Rightarrow>
               ([Post route,
                 Print (''Error deploying route to '' @ ref_name n @ '': '' @ e),
                 PrintJson route,
                 Print (CHR 0x0A # ''Stopping deployment due to error.'')],
                Inl (SystemExit 1))))"

text \<open>\<open>for i, route in enumerate(routes, 1)\<close>: an exception or the exit leaves the loop.\<close>

fun deploy_loop ::
  "(nat \<Rightarrow> route_payload \<Rightarrow> string option) \<Rightarrow> nat \<Rightarrow> nat \<Rightarrow> route_payload list
     \<Rightarrow> event list \<times> (error + unit)" where
  "deploy_loop post tot i [] = ([], Inr ())"
| "deploy_loop post tot i (route # rest) =
     (case submit post tot i route of
        (evs, Inl e) \<Rightarrow> (evs, Inl e)
      | (evs, Inr u) \<Rightarrow>
          (let (evs', res) = deploy_loop post tot (Suc i) rest in (evs @ evs', res)))"

definition deploy_routes ::
  "(nat \<Rightarrow> route_payload \<Rightarrow> string option) \<Rightarrow> route_payload list \<Rightarrow> event list \<times> (error + unit)" where
  "deploy_routes post routes =
     (let tot = length routes;
          (evs, res) = deploy_loop post tot 1 routes
      in (Print (CHR 0x0A # ''Deploying '' @ str_nat tot @ '' routes...'') # evs, res))"

text \<open>The submissions of a run, read off the events.\<close>

fun posts :: "event list \<Rightarrow> route_payload list" where
  "posts [] = []"
| "posts (Post r # evs) = r # posts evs"
| "posts (ev # evs) = posts evs"

section \<open>The invariant of the caches\<close>

text \<open>
  \<open>get_existing_objects\<close> is the only writer of the two caches, and it stores every
  object under its own name: in a cache it has filled, each key is the \<open>name\<close> field of
  the object stored there.
\<close>

definition keyed_by_name :: "cache \<Rightarrow> bool" where
  "keyed_by_name c = list_all (\<lambda>(k, obj). map_of obj ''name'' = Some k) c"

definition loaded :: "converter \<Rightarrow> bool" where
  "loaded self = (keyed_by_name (network_objects self) \<and> keyed_by_name (host_objects self))"

section \<open>Example data\<close>

text \<open>
  The objects of the worked example of the specification, a network \<open>10.1.1.0\<close> named
  \<open>net-101\<close> and a host \<open>10.1.1.1\<close> named \<open>gw-111\<close>, and the same two objects under
  the names \<open>obj-10.1.1.0\<close> and \<open>obj-10.1.1.1\<close>.
\<close>

definition net_101 :: fmc_object where
  "net_101 = [(''name'', ''net-101''), (''id'', ''N1''), (''type'', ''Network''),
              (''value'', ''10.1.1.0'')]"

definition gw_111 :: fmc_object where
  "gw_111 = [(''name'', ''gw-111''), (''id'', ''H1''), (''type'', ''Host''),
             (''value'', ''10.1.1.1'')]"

definition obj_net :: fmc_object where
  "obj_net = [(''name'', ''obj-10.1.1.0''), (''id'', ''N1''), (''type'', ''Network''),
              (''value'', ''10.1.1.0'')]"

definition obj_gw :: fmc_object where
  "obj_gw = [(''name'', ''obj-10.1.1.1''), (''id'', ''H1''), (''type'', ''Host''),
             (''value'', ''10.1.1.1'')]"

definition spec_catalog :: converter where
  "spec_catalog = fst (get_existing_objects init (Items [net_101]) (Items [gw_111]))"

definition obj_catalog :: converter where
  "obj_catalog = fst (get_existing_objects init (Items [obj_net]) (Items [obj_gw]))"

definition example_line :: string where
  "example_line = ''route inside 10.1.1.0 255.255.255.0 10.1.1.1 1''"

definition example_route :: route_payload where
  "example_route =
     \<lparr>interfaceName = ''inside'',
      selectedNetworks = [\<lparr>ref_type = ''Network'', ref_id = ''N1'', ref_name = ''obj-10.1.1.0''\<rparr>],
      gateway_object = \<lparr>ref_type = ''Host'', ref_id = ''H1'', ref_name = ''obj-10.1.1.1''\<rparr>,
      metricValue = 1, route_type = ''IPv4StaticRoute'', isTunneled = False\<rparr>"

text \<open>An FMC that refuses the \<open>k\<close>-th submission and accepts every other one.\<close>

definition fail_at :: "nat \<Rightarrow> nat \<Rightarrow> route_payload \<Rightarrow> string option" where
  "fail_at k i r = (if i = k then Some ''500 Server Error'' else None)"

section \<open>Facts about the caches\<close>

lemma keyed_by_name_lookup:
  "keyed_by_name c \<Longrightarrow> map_of c k = Some obj \<Longrightarrow> map_of obj ''name'' = Some k"
  by (induction c) (auto simp: keyed_by_name_def split: if_splits)

lemma keyed_by_name_update:
  "keyed_by_name c \<Longrightarrow> map_of obj ''name'' = Some n \<Longrightarrow> keyed_by_name (AList.update n obj c)"
  by (induction c) (auto simp: keyed_by_name_def)

lemma keyed_by_name_store:
  "keyed_by_name c \<Longrightarrow> keyed_by_name (fst (store_objects label c objs))"
  by (induction objs arbitrary: c)
     (auto simp: keyed_by_name_update case_prod_beta split: option.splits)

lemma keyed_by_name_fetch:
  "keyed_by_name c \<Longrightarrow> keyed_by_name (fst (fetch_into label errlabel c r))"
  by (cases r) (simp_all add: fetch_into_def keyed_by_name_store)

lemma network_objects_get:
  "network_objects (fst (get_existing_objects self nets hosts)) =
     fst (fetch_into ''Found network object: '' ''Error getting network objects: ''
            (network_objects self) nets)"
  by (simp add: get_existing_objects_def case_prod_beta)

lemma host_objects_get:
  "host_objects (fst (get_existing_objects self nets hosts)) =
     fst (fetch_into ''Found host object: '' ''Error getting host objects: ''
            (host_objects self) hosts)"
  by (simp add: get_existing_objects_def case_prod_beta)

lemma loaded_init: "loaded init"
  by (simp add: loaded_def init_def keyed_by_name_def)

lemma loaded_get_existing_objects:
  "loaded self \<Longrightarrow> loaded (fst (get_existing_objects self nets hosts))"
  by (simp add: loaded_def keyed_by_name_fetch network_objects_get host_objects_get)

lemma store_objects_append:
  "fst (store_objects label c (xs @ ys)) =
     fst (store_objects label (fst (store_objects label c xs)) ys)"
  by (induction xs arbitrary: c) (auto simp: case_prod_beta split: option.splits)

lemma store_objects_other:
  "\<forall>obj \<in> set objs. map_of obj ''name'' \<noteq> Some n \<Longrightarrow>
     map_of (fst (store_objects label c objs)) n = map_of c n"
  by (induction objs arbitrary: c) (auto simp: case_prod_beta update_conv' split: option.splits)

lemma store_objects_last:
  assumes "map_of obj ''name'' = Some n"
    and "\<forall>obj' \<in> set post. map_of obj' ''name'' \<noteq> Some n"
  shows "map_of (fst (store_objects label c (pre @ obj # post))) n = Some obj"
  using assms
  by (simp add: store_objects_append case_prod_beta store_objects_other update_conv')

text \<open>
  On a converter whose caches hold their objects under their names, the printed name is
  always there, and \<open>find_or_create_object\<close> is the plain lookup of \<open>obj-\<close> followed by
  the value, in the host cache for the mask \<open>255.255.255.255\<close> or no mask, in the network
  cache for any other mask.
\<close>

lemma find_result:
  "loaded self \<Longrightarrow>
   snd (find_or_create_object self v msk) =
     Inr (map_of (if msk = Some ''255.255.255.255'' \<or> msk = None then host_objects self
                  else network_objects self) (''obj-'' @ v))"
  by (auto simp: find_or_create_object_def loaded_def Let_def
           dest: keyed_by_name_lookup split: option.splits)

section \<open>The object catalog\<close>

text \<open>
  Claim C1, as the code has it. The caches are indexed by the \<open>name\<close> field of the
  objects, not by their address value, and a lookup of the address \<open>v\<close> asks for the key
  \<open>obj-\<close> followed by \<open>v\<close>. So, after the caches have been filled from a listing in
  which \<open>obj\<close> is the last object with the name \<open>n\<close>, the lookup of \<open>v\<close> in the matching
  cache returns \<open>obj\<close> exactly when \<open>n\<close> is \<open>obj-\<close> followed by \<open>v\<close>. The matching
  cache is the host cache for a lookup without a mask and for one with the mask
  \<open>255.255.255.255\<close>, whatever the network listing holds, and the network cache for a
  lookup with any other mask, whatever the host listing holds.
\<close>

theorem lookup_by_object_name:
  assumes "map_of obj ''name'' = Some n"
    and "\<forall>obj' \<in> set post. map_of obj' ''name'' \<noteq> Some n"
  shows "(snd (find_or_create_object
                 (fst (get_existing_objects init nets (Items (pre @ obj # post)))) v None)
            = Inr (Some obj) \<longleftrightarrow> n = ''obj-'' @ v) \<and>
         (snd (find_or_create_object
                 (fst (get_existing_objects init nets (Items (pre @ obj # post)))) v
                 (Some ''255.255.255.255''))
            = Inr (Some obj) \<longleftrightarrow> n = ''obj-'' @ v) \<and>
         (m \<noteq> ''255.255.255.255'' \<longrightarrow>
          (snd (find_or_create_object
                  (fst (get_existing_objects init (Items (pre @ obj # post)) hosts)) v (Some m))
             = Inr (Some obj) \<longleftrightarrow> n = ''obj-'' @ v))"
proof -
  let ?objs = "pre @ obj # post"
  let ?h = "fst (get_existing_objects init nets (Items ?objs))"
  let ?n = "fst (get_existing_objects init (Items ?objs) hosts)"
  have lh: "loaded ?h" and ln: "loaded ?n"
    by (simp_all add: loaded_get_existing_objects loaded_init)
  have kh: "keyed_by_name (host_objects ?h)" and kn: "keyed_by_name (network_objects ?n)"
    using lh ln by (simp_all only: loaded_def)
  have sh: "map_of (host_objects ?h) n = Some obj"
    using assms by (simp add: host_objects_get fetch_into_def store_objects_last)
  have sn: "map_of (network_objects ?n) n = Some obj"
    using assms by (simp add: network_objects_get fetch_into_def store_objects_last)
  have "map_of (host_objects ?h) (''obj-'' @ v) = Some obj \<longleftrightarrow> n = ''obj-'' @ v"
    using keyed_by_name_lookup [OF kh] sh assms(1) by fastforce
  moreover have "map_of (network_objects ?n) (''obj-'' @ v) = Some obj \<longleftrightarrow> n = ''obj-'' @ v"
    using keyed_by_name_lookup [OF kn] sn assms(1) by fastforce
  ultimately show ?thesis
    by (simp only: find_result [OF lh] find_result [OF ln]) simp
qed

theorem lookup_by_object_name_witness:
  "snd (find_or_create_object
          (fst (get_existing_objects init (Items []) (Items ([gw_111] @ obj_gw # []))))
          ''10.1.1.1'' None) = Inr (Some obj_gw) \<and>
   snd (find_or_create_object
          (fst (get_existing_objects init (Items []) (Items ([gw_111] @ obj_gw # []))))
          ''10.1.1.1'' (Some ''255.255.255.255'')) = Inr (Some obj_gw) \<and>
   snd (find_or_create_object
          (fst (get_existing_objects init (Items ([net_101] @ obj_net # [])) (Items [])))
          ''10.1.1.0'' (Some ''255.255.255.0'')) = Inr (Some obj_net)"
proof -
  have n1: "map_of obj_gw ''name'' = Some ''obj-10.1.1.1''"
    and n2: "map_of obj_net ''name'' = Some ''obj-10.1.1.0''"
    by (simp_all add: obj_gw_def obj_net_def)
  have e: "\<forall>obj' \<in> set []. map_of obj' ''name'' \<noteq> Some k" for k :: string
    by simp
  show ?thesis
    using lookup_by_object_name [OF n1 e, of "Items []" "[gw_111]" "''10.1.1.1''"
                                   "''255.255.255.0''" "Items []"]
          lookup_by_object_name [OF n2 e, of "Items []" "[net_101]" "''10.1.1.0''"
                                   "''255.255.255.0''" "Items []"]
    by simp
qed

text \<open>
  The claim as stated fails: the host of the specification's example, loaded with the
  address value \<open>10.1.1.1\<close> and the name \<open>gw-111\<close>, is not found by its address value,
  and neither is the network \<open>10.1.1.0\<close> named \<open>net-101\<close>.
\<close>

theorem lookup_by_value_counterexample:
  "snd (find_or_create_object spec_catalog ''10.1.1.1'' None) = Inr None \<and>
   snd (find_or_create_object spec_catalog ''10.1.1.0'' (Some ''255.255.255.0'')) = Inr None"
  by code_simp

text \<open>
  Claim C8. A \<open>RequestException\<close> in either fetch is printed and ends nothing:
  \<open>get_existing_objects\<close> still returns a converter (it has no error result at all). The
  cache of the failed fetch is left as it was, and the other cache is still filled from
  its listing: it is the cache \<open>store_objects\<close> builds from the listing, the last listed
  object \<open>obj\<close> with a name \<open>n\<close> is stored under \<open>n\<close>, and a later lookup of the address
  \<open>v\<close> with \<open>n\<close> equal to \<open>obj-\<close> followed by \<open>v\<close> finds it. When both fetches fail,
  both errors are printed and the converter is returned as it was.
\<close>

theorem catalog_fetch_error_is_not_fatal:
  assumes "map_of obj ''name'' = Some n"
    and "\<forall>obj' \<in> set post. map_of obj' ''name'' \<noteq> Some n"
  shows "network_objects
           (fst (get_existing_objects self (RequestException e) (Items (pre @ obj # post)))) =
           network_objects self \<and>
         host_objects
           (fst (get_existing_objects self (RequestException e) (Items (pre @ obj # post)))) =
           fst (store_objects ''Found host object: '' (host_objects self) (pre @ obj # post)) \<and>
         map_of (host_objects
                   (fst (get_existing_objects self (RequestException e)
                           (Items (pre @ obj # post))))) n = Some obj \<and>
         (n = ''obj-'' @ v \<longrightarrow>
            snd (find_or_create_object
                   (fst (get_existing_objects self (RequestException e)
                           (Items (pre @ obj # post)))) v None) = Inr (Some obj)) \<and>
         (''Error getting network objects: '' @ e)
           \<in> set (snd (get_existing_objects self (RequestException e)
                          (Items (pre @ obj # post)))) \<and>
         host_objects
           (fst (get_existing_objects self (Items (pre @ obj # post)) (RequestException e))) =
           host_objects self \<and>
         network_objects
           (fst (get_existing_objects self (Items (pre @ obj # post)) (RequestException e))) =
           fst (store_objects ''Found network object: '' (network_objects self)
                  (pre @ obj # post)) \<and>
         map_of (network_objects
                   (fst (get_existing_objects self (Items (pre @ obj # post))
                           (RequestException e)))) n = Some obj \<and>
         (n = ''obj-'' @ v \<and> m \<noteq> ''255.255.255.255'' \<longrightarrow>
            snd (find_or_create_object
                   (fst (get_existing_objects self (Items (pre @ obj # post))
                           (RequestException e))) v (Some m)) = Inr (Some obj)) \<and>
         (''Error getting host objects: '' @ e)
           \<in> set (snd (get_existing_objects self (Items (pre @ obj # post))
                          (RequestException e))) \<and>
         get_existing_objects self (RequestException e) (RequestException e') =
           (self,
            [''Fetching existing network objects...'',
             ''Error getting network objects: '' @ e,
             CHR 0x0A # ''Fetching existing host objects...'',
             ''Error getting host objects: '' @ e',
             CHR 0x0A # ''Total objects found: '' @ str_nat (length (network_objects self)) @
               '' networks, '' @ str_nat (length (host_objects self)) @ '' hosts''])"
proof -
  let ?objs = "pre @ obj # post"
  let ?h = "fst (get_existing_objects self (RequestException e) (Items ?objs))"
  let ?n = "fst (get_existing_objects self (Items ?objs) (RequestException e))"
  have hn: "network_objects ?h = network_objects self"
    and hh: "host_objects ?h =
               fst (store_objects ''Found host object: '' (host_objects self) ?objs)"
    and nh: "host_objects ?n = host_objects self"
    and nn: "network_objects ?n =
               fst (store_objects ''Found network object: '' (network_objects self) ?objs)"
    by (simp_all add: network_objects_get host_objects_get fetch_into_def)
  have sh: "map_of (host_objects ?h) n = Some obj"
    using assms by (simp add: hh store_objects_last)
  have sn: "map_of (network_objects ?n) n = Some obj"
    using assms by (simp add: nn store_objects_last)
  have fh: "snd (find_or_create_object ?h v None) = Inr (Some obj)" if "n = ''obj-'' @ v"
    using sh assms(1) that by (simp add: find_or_create_object_def)
  have fn: "snd (find_or_create_object ?n v (Some m)) = Inr (Some obj)"
    if "n = ''obj-'' @ v" "m \<noteq> ''255.255.255.255''"
    using sn assms(1) that by (simp add: find_or_create_object_def)
  have eh: "(''Error getting network objects: '' @ e)
              \<in> set (snd (get_existing_objects self (RequestException e) (Items ?objs)))"
    and en: "(''Error getting host objects: '' @ e)
              \<in> set (snd (get_existing_objects self (Items ?objs) (RequestException e)))"
    by (simp_all add: get_existing_objects_def fetch_into_def case_prod_beta)
  have both: "get_existing_objects self (RequestException e) (RequestException e') =
           (self,
            [''Fetching existing network objects...'',
             ''Error getting network objects: '' @ e,
             CHR 0x0A # ''Fetching existing host objects...'',
             ''Error getting host objects: '' @ e',
             CHR 0x0A # ''Total objects found: '' @ str_nat (length (network_objects self)) @
               '' networks, '' @ str_nat (length (host_objects self)) @ '' hosts''])"
    by (simp add: get_existing_objects_def fetch_into_def)
  show ?thesis
    using hn hh sh fh eh nh nn sn fn en both by blast
qed

theorem catalog_fetch_error_is_not_fatal_witness:
  "map_of (host_objects
             (fst (get_existing_objects init (RequestException ''timed out'')
                     (Items ([gw_111] @ obj_gw # []))))) ''obj-10.1.1.1'' = Some obj_gw \<and>
   network_objects
     (fst (get_existing_objects init (RequestException ''timed out'')
             (Items ([gw_111] @ obj_gw # [])))) = network_objects init \<and>
   snd (find_or_create_object
          (fst (get_existing_objects init (RequestException ''timed out'')
                  (Items ([gw_111] @ obj_gw # [])))) ''10.1.1.1'' None) = Inr (Some obj_gw) \<and>
   snd (parse_and_prepare_routes
          (fst (get_existing_objects init (RequestException ''timed out'')
                  (Items ([gw_111] @ obj_gw # []))))
          [''route inside 10.1.1.1 255.255.255.255 10.1.1.1 1'']) =
     Inr [\<lparr>interfaceName = ''inside'',
           selectedNetworks =
             [\<lparr>ref_type = ''Host'', ref_id = ''H1'', ref_name = ''obj-10.1.1.1''\<rparr>],
           gateway_object = \<lparr>ref_type = ''Host'', ref_id = ''H1'', ref_name = ''obj-10.1.1.1''\<rparr>,
           metricValue = 1, route_type = ''IPv4StaticRoute'', isTunneled = False\<rparr>]"
proof -
  have n: "map_of obj_gw ''name'' = Some ''obj-10.1.1.1''"
    by (simp add: obj_gw_def)
  have e: "\<forall>obj' \<in> set []. map_of obj' ''name'' \<noteq> Some ''obj-10.1.1.1''"
    by simp
  have r: "snd (parse_and_prepare_routes
                  (fst (get_existing_objects init (RequestException ''timed out'')
                          (Items ([gw_111] @ obj_gw # []))))
                  [''route inside 10.1.1.1 255.255.255.255 10.1.1.1 1'']) =
             Inr [\<lparr>interfaceName = ''inside'',
                   selectedNetworks =
                     [\<lparr>ref_type = ''Host'', ref_id = ''H1'', ref_name = ''obj-10.1.1.1''\<rparr>],
                   gateway_object =
                     \<lparr>ref_type = ''Host'', ref_id = ''H1'', ref_name = ''obj-10.1.1.1''\<rparr>,
                   metricValue = 1, route_type = ''IPv4StaticRoute'', isTunneled = False\<rparr>]"
    by code_simp
  have k: "''obj-10.1.1.1'' = ''obj-'' @ ''10.1.1.1''"
    by simp
  note t = catalog_fetch_error_is_not_fatal
             [OF n e, of init "''timed out''" "[gw_111]" "''10.1.1.1''" "''255.255.255.0''"
                "''timed out''"]
  show ?thesis
    using t k r by blast
qed

section \<open>The route line parser\<close>

text \<open>
  Claim C7, as the code has it. A line yields a route intent exactly when, after
  \<open>strip\<close> and \<open>split\<close>, it has six tokens, the first token is \<open>route\<close> and the sixth
  token is accepted by \<open>int\<close>; the intent then holds the tokens 1 to 4 in the order
  interface, network, netmask, gateway, and the integer read from the sixth. A line
  without the six-token shape or the keyword yields nothing, and a line with them whose
  sixth token is not an integer raises \<open>ValueError\<close>.
\<close>

theorem parse_line_yields_intent:
  fixes r :: route_intent
  shows "(parse_line l = Inr (Some r) \<longleftrightarrow>
            length (split (strip l)) = 6 \<and> split (strip l) ! 0 = ''route'' \<and>
            py_int (split (strip l) ! 5) = Some (metric r) \<and>
            interface r = split (strip l) ! 1 \<and> network r = split (strip l) ! 2 \<and>
            netmask r = split (strip l) ! 3 \<and> gateway r = split (strip l) ! 4) \<and>
         (parse_line l = Inr None \<longleftrightarrow>
            \<not> (length (split (strip l)) = 6 \<and> split (strip l) ! 0 = ''route'')) \<and>
         (parse_line l = Inl ValueError \<longleftrightarrow>
            length (split (strip l)) = 6 \<and> split (strip l) ! 0 = ''route'' \<and>
            py_int (split (strip l) ! 5) = None)"
  by (cases r) (auto simp: parse_line_def Let_def split: option.splits)

theorem parse_line_yields_intent_witness:
  "parse_line example_line =
     Inr (Some \<lparr>interface = ''inside'', network = ''10.1.1.0'', netmask = ''255.255.255.0'',
                gateway = ''10.1.1.1'', metric = 1\<rparr>) \<and>
   parse_line ''hostname asa-1'' = Inr None"
proof -
  have "split (strip example_line) =
          [''route'', ''inside'', ''10.1.1.0'', ''255.255.255.0'', ''10.1.1.1'', ''1'']"
    by code_simp
  moreover have "py_int ''1'' = Some 1"
    by code_simp
  moreover have "split (strip ''hostname asa-1'') = [''hostname'', ''asa-1'']"
    by code_simp
  ultimately show ?thesis
    using parse_line_yields_intent
            [of example_line
                "\<lparr>interface = ''inside'', network = ''10.1.1.0'', netmask = ''255.255.255.0'',
                  gateway = ''10.1.1.1'', metric = 1\<rparr>"]
          parse_line_yields_intent [of "''hostname asa-1''"]
    by simp
qed

text \<open>
  The claim as stated fails on a line of six tokens that begins with \<open>route\<close> and ends
  in a token that is not an integer: no intent is yielded.
\<close>

theorem six_tokens_without_intent_counterexample:
  "length (split (strip ''route inside 10.1.1.0 255.255.255.0 10.1.1.1 x'')) = 6 \<and>
   split (strip ''route inside 10.1.1.0 255.255.255.0 10.1.1.1 x'') ! 0 = ''route'' \<and>
   parse_line ''route inside 10.1.1.0 255.255.255.0 10.1.1.1 x'' = Inl ValueError"
  by code_simp

text \<open>The loop over a file read in two parts.\<close>

lemma for_lines_append:
  "for_lines self (xs @ ys) st =
     (case for_lines self xs st of
        (out, Inl e) \<Rightarrow> (out, Inl e)
      | (out, Inr st') \<Rightarrow> (let (out', res) = for_lines self ys st' in (out @ out', res)))"
  by (induction xs arbitrary: st) (auto simp: case_prod_beta split: prod.splits sum.splits)

text \<open>
  Claim C3, as the code has it. A line with the six-token \<open>route\<close> shape whose metric
  token is not an integer is not passed over: \<open>int\<close> raises \<open>ValueError\<close> in the loop
  body, nothing catches it, and the method ends with that error whatever the lines after
  it are. No route is returned, also not for the lines before it.
\<close>

theorem non_integer_metric_raises:
  assumes "length (split (strip l)) = 6" and "split (strip l) ! 0 = ''route''"
    and "py_int (split (strip l) ! 5) = None"
    and "snd (for_lines self pre ([], [])) = Inr st"
  shows "route_step self l st = ([], Inl ValueError) \<and>
         parse_and_prepare_routes self (pre @ l # post) =
           ((CHR 0x0A # ''Parsing routes and matching objects...'') #
              fst (for_lines self pre ([], [])),
            Inl ValueError)"
proof -
  have p: "parse_line l = Inl ValueError"
    using assms(1-3) by (simp add: parse_line_def)
  then have s: "route_step self l st' = ([], Inl ValueError)" for st'
    by (simp add: route_step_def)
  obtain out where o: "for_lines self pre ([], []) = (out, Inr st)"
    using assms(4) by (cases "for_lines self pre ([], [])") simp
  have "for_lines self (pre @ l # post) ([], []) = (out, Inl ValueError)"
    by (simp add: for_lines_append o s)
  then show ?thesis
    using s o by (simp add: parse_and_prepare_routes_def)
qed

theorem non_integer_metric_raises_witness:
  "parse_and_prepare_routes obj_catalog
     ([example_line] @ ''route inside 10.1.1.0 255.255.255.0 10.1.1.1 x'' # [example_line]) =
   ((CHR 0x0A # ''Parsing routes and matching objects...'') #
      fst (for_lines obj_catalog [example_line] ([], [])),
    Inl ValueError)"
proof -
  have a: "length (split (strip ''route inside 10.1.1.0 255.255.255.0 10.1.1.1 x'')) = 6"
    and b: "split (strip ''route inside 10.1.1.0 255.255.255.0 10.1.1.1 x'') ! 0 = ''route''"
    and c: "py_int (split (strip ''route inside 10.1.1.0 255.255.255.0 10.1.1.1 x'') ! 5) = None"
    and d: "snd (for_lines obj_catalog [example_line] ([], [])) = Inr ([example_route], [])"
    by code_simp+
  show ?thesis
    using non_integer_metric_raises [OF a b c d, of "[example_line]"] by simp
qed

text \<open>
  The claim as stated fails: after a line with the metric \<open>x\<close> the run ends with
  \<open>ValueError\<close>, although the line after it alone gives a route.
\<close>

theorem non_integer_metric_counterexample:
  "snd (parse_and_prepare_routes obj_catalog
          [''route inside 10.1.1.0 255.255.255.0 10.1.1.1 x'', example_line]) = Inl ValueError \<and>
   snd (parse_and_prepare_routes obj_catalog [example_line]) = Inr [example_route]"
  by code_simp


section \<open>Resolution\<close>

text \<open>What a lookup prints and returns on a converter filled by \<open>get_existing_objects\<close>.\<close>

lemma find_printed:
  "loaded self \<Longrightarrow>
   fst (find_or_create_object self v msk) =
     (case map_of (if msk = Some ''255.255.255.255'' \<or> msk = None then host_objects self
                   else network_objects self) (''obj-'' @ v) of
        None \<Rightarrow> [''Warning: No existing object found for '' @ v]
      | Some obj \<Rightarrow> [''Found existing object: '' @ ''obj-'' @ v @ '' for '' @ v])"
  by (auto simp: find_or_create_object_def loaded_def Let_def
           dest: keyed_by_name_lookup split: option.splits)

lemma find_eq:
  "loaded self \<Longrightarrow>
   find_or_create_object self v msk =
     (case map_of (if msk = Some ''255.255.255.255'' \<or> msk = None then host_objects self
                   else network_objects self) (''obj-'' @ v) of
        None \<Rightarrow> ([''Warning: No existing object found for '' @ v], Inr None)
      | Some obj \<Rightarrow> ([''Found existing object: '' @ ''obj-'' @ v @ '' for '' @ v],
                     Inr (Some obj)))"
  using find_result [of self v msk] find_printed [of self v msk]
  by (cases "find_or_create_object self v msk") (auto split: option.splits)

text \<open>
  Claim C5. On a converter filled by \<open>get_existing_objects\<close>, a lookup without a mask
  reads the host cache, and the loop body for a route reads the gateway in the host cache
  whatever the netmask is, and reads the network in the host cache when the netmask is
  \<open>255.255.255.255\<close> and in the network cache for every other netmask. The equation
  gives the printed lines and the new loop state for each outcome of the two lookups.
\<close>

theorem partition_by_mask:
  assumes "loaded self"
  shows "snd (find_or_create_object self v None) = Inr (map_of (host_objects self) (''obj-'' @ v)) \<and>
         resolve_route self r st =
           (case map_of (host_objects self) (''obj-'' @ gateway r) of
              None \<Rightarrow>
                ([''Warning: No existing object found for '' @ gateway r],
                 Inr (fst st, List.insert (''Gateway: '' @ gateway r) (snd st)))
            | Some gw_obj \<Rightarrow>
                (case map_of (if netmask r = ''255.255.255.255'' then host_objects self
                              else network_objects self) (''obj-'' @ network r) of
                   None \<Rightarrow>
                     ([''Found existing object: '' @ ''obj-'' @ gateway r @ '' for '' @ gateway r,
                       ''Warning: No existing object found for '' @ network r],
                      Inr (fst st,
                           List.insert (''Network: '' @ network r @ ''/'' @ netmask r) (snd st)))
                 | Some net_obj \<Rightarrow>
                     (case build_route r net_obj gw_obj of
                        Inl e \<Rightarrow>
                          ([''Found existing object: '' @ ''obj-'' @ gateway r @ '' for '' @
                              gateway r,
                            ''Found existing object: '' @ ''obj-'' @ network r @ '' for '' @
                              network r],
                           Inl e)
                      | Inr route \<Rightarrow>
                          ([''Found existing object: '' @ ''obj-'' @ gateway r @ '' for '' @
                              gateway r,
                            ''Found existing object: '' @ ''obj-'' @ network r @ '' for '' @
                              network r,
                            ''Prepared route: '' @ network r @ ''/'' @ netmask r @ '' via '' @
                              gateway r],
                           Inr (fst st @ [route], snd st)))))"
proof -
  have g: "find_or_create_object self (gateway r) None =
             (case map_of (host_objects self) (''obj-'' @ gateway r) of
                None \<Rightarrow> ([''Warning: No existing object found for '' @ gateway r], Inr None)
              | Some obj \<Rightarrow>
                  ([''Found existing object: '' @ ''obj-'' @ gateway r @ '' for '' @ gateway r],
                   Inr (Some obj)))"
    using find_eq [OF assms, of "gateway r" None] by simp
  have n: "find_or_create_object self (network r) (Some (netmask r)) =
             (case map_of (if netmask r = ''255.255.255.255'' then host_objects self
                           else network_objects self) (''obj-'' @ network r) of
                None \<Rightarrow> ([''Warning: No existing object found for '' @ network r], Inr None)
              | Some obj \<Rightarrow>
                  ([''Found existing object: '' @ ''obj-'' @ network r @ '' for '' @ network r],
                   Inr (Some obj)))"
    using find_eq [OF assms, of "network r" "Some (netmask r)"] by simp
  have h: "snd (find_or_create_object self v None) =
             Inr (map_of (host_objects self) (''obj-'' @ v))"
    using find_result [OF assms, of v None] by simp
  show ?thesis
    unfolding resolve_route_def g n
    by (simp add: h split: option.splits sum.splits)
qed


lemma loaded_obj_catalog: "loaded obj_catalog"
  unfolding obj_catalog_def by (rule loaded_get_existing_objects [OF loaded_init])

theorem partition_by_mask_witness:
  "loaded obj_catalog \<and>
   snd (resolve_route obj_catalog
          \<lparr>interface = ''inside'', network = ''10.1.1.1'', netmask = ''255.255.255.255'',
           gateway = ''10.1.1.1'', metric = 1\<rparr> ([], [])) =
     Inr ([\<lparr>interfaceName = ''inside'',
            selectedNetworks =
              [\<lparr>ref_type = ''Host'', ref_id = ''H1'', ref_name = ''obj-10.1.1.1''\<rparr>],
            gateway_object = \<lparr>ref_type = ''Host'', ref_id = ''H1'', ref_name = ''obj-10.1.1.1''\<rparr>,
            metricValue = 1, route_type = ''IPv4StaticRoute'', isTunneled = False\<rparr>], []) \<and>
   snd (resolve_route obj_catalog
          \<lparr>interface = ''inside'', network = ''10.1.1.1'', netmask = ''255.255.255.0'',
           gateway = ''10.1.1.1'', metric = 1\<rparr> ([], [])) =
     Inr ([], [''Network: 10.1.1.1/255.255.255.0''])"
proof -
  let ?r = "\<lparr>interface = ''inside'', network = ''10.1.1.1'', netmask = ''255.255.255.255'',
             gateway = ''10.1.1.1'', metric = 1\<rparr>"
  let ?q = "\<lparr>interface = ''inside'', network = ''10.1.1.1'', netmask = ''255.255.255.0'',
             gateway = ''10.1.1.1'', metric = 1\<rparr>"
  have h: "map_of (host_objects obj_catalog) ''obj-10.1.1.1'' = Some obj_gw"
    and n: "map_of (network_objects obj_catalog) ''obj-10.1.1.1'' = None"
    and b: "build_route ?r obj_gw obj_gw =
              Inr \<lparr>interfaceName = ''inside'',
                   selectedNetworks =
                     [\<lparr>ref_type = ''Host'', ref_id = ''H1'', ref_name = ''obj-10.1.1.1''\<rparr>],
                   gateway_object =
                     \<lparr>ref_type = ''Host'', ref_id = ''H1'', ref_name = ''obj-10.1.1.1''\<rparr>,
                   metricValue = 1, route_type = ''IPv4StaticRoute'', isTunneled = False\<rparr>"
    by code_simp+
  show ?thesis
    using partition_by_mask [OF loaded_obj_catalog, of "''10.1.1.1''" ?r "([], [])"]
          partition_by_mask [OF loaded_obj_catalog, of "''10.1.1.1''" ?q "([], [])"]
    by (simp add: loaded_obj_catalog h n b)
qed

text \<open>
  Claim C10. When the gateway of a parsed route line is not in the host cache, the loop
  body prints the one warning of the gateway lookup and nothing of a network lookup, adds
  the descriptor \<open>Gateway: <value>\<close> to the missing objects and leaves the routes alone;
  the \<open>Network: <value>/<mask>\<close> descriptor of the line is among the missing objects
  afterwards only if it was before. A file of that one line is rejected with exactly the
  gateway descriptor reported. Nothing is assumed about the network of the line, so this
  covers a line that misses both references.
\<close>

theorem gateway_miss_skips_network:
  assumes "parse_line l = Inr (Some r)"
    and "map_of (host_objects self) (''obj-'' @ gateway r) = None"
  shows "route_step self l (routes, missing) =
           ([''Warning: No existing object found for '' @ gateway r],
            Inr (routes, List.insert (''Gateway: '' @ gateway r) missing)) \<and>
         ((''Network: '' @ network r @ ''/'' @ netmask r)
            \<in> set (List.insert (''Gateway: '' @ gateway r) missing) \<longleftrightarrow>
          (''Network: '' @ network r @ ''/'' @ netmask r) \<in> set missing) \<and>
         parse_and_prepare_routes self [l] =
           ([CHR 0x0A # ''Parsing routes and matching objects...'',
             ''Warning: No existing object found for '' @ gateway r,
             CHR 0x0A # ''WARNING: The following objects were not found in FMC:'',
             ''  - '' @ ''Gateway: '' @ gateway r,
             CHR 0x0A # ''Please create these objects in FMC before proceeding.''],
            Inl (SystemExit 1))"
proof -
  have f: "find_or_create_object self (gateway r) None =
             ([''Warning: No existing object found for '' @ gateway r], Inr None)"
    using assms(2) by (simp add: find_or_create_object_def)
  have s: "route_step self l st =
             ([''Warning: No existing object found for '' @ gateway r],
              Inr (fst st, List.insert (''Gateway: '' @ gateway r) (snd st)))" for st
    using assms(1) by (simp add: route_step_def resolve_route_def f)
  show ?thesis
    by (simp add: s parse_and_prepare_routes_def)
qed

theorem gateway_miss_skips_network_witness:
  "parse_and_prepare_routes obj_catalog [''route inside 10.9.0.0 255.255.0.0 10.9.9.9 1''] =
     ([CHR 0x0A # ''Parsing routes and matching objects...'',
       ''Warning: No existing object found for 10.9.9.9'',
       CHR 0x0A # ''WARNING: The following objects were not found in FMC:'',
       ''  - Gateway: 10.9.9.9'',
       CHR 0x0A # ''Please create these objects in FMC before proceeding.''],
      Inl (SystemExit 1)) \<and>
   map_of (network_objects obj_catalog) ''obj-10.9.0.0'' = None"
proof -
  let ?r = "\<lparr>interface = ''inside'', network = ''10.9.0.0'', netmask = ''255.255.0.0'',
             gateway = ''10.9.9.9'', metric = 1\<rparr>"
  have p: "parse_line ''route inside 10.9.0.0 255.255.0.0 10.9.9.9 1'' = Inr (Some ?r)"
    by code_simp
  have g: "map_of (host_objects obj_catalog) (''obj-'' @ gateway ?r) = None"
    and n: "map_of (network_objects obj_catalog) ''obj-10.9.0.0'' = None"
    by code_simp+
  show ?thesis
    using gateway_miss_skips_network [OF p g, of "[]" "[]"] n by simp
qed

text \<open>
  Claim C6, as the code has it. For a parsed line whose gateway and network lookups both
  find an object, the loop body appends one route: \<open>type\<close> is \<open>IPv4StaticRoute\<close>,
  \<open>isTunneled\<close> is false, \<open>selectedNetworks\<close> is the single triple of type, id and name
  of the network object, the gateway object is the triple of the gateway object, and the
  interface name and the metric are those of the line, the metric being whatever integer
  \<open>int\<close> read, without any check of its range.
\<close>

theorem payload_of_resolved_intent:
  assumes "parse_line l = Inr (Some r)"
    and "snd (find_or_create_object self (gateway r) None) = Inr (Some gw_obj)"
    and "snd (find_or_create_object self (network r) (Some (netmask r))) = Inr (Some net_obj)"
    and "map_of net_obj ''type'' = Some nt" and "map_of net_obj ''id'' = Some ni"
    and "map_of net_obj ''name'' = Some nn"
    and "map_of gw_obj ''type'' = Some gt" and "map_of gw_obj ''id'' = Some gi"
    and "map_of gw_obj ''name'' = Some gn"
  shows "snd (route_step self l (routes, missing)) =
           Inr (routes @
                  [\<lparr>interfaceName = interface r,
                    selectedNetworks = [\<lparr>ref_type = nt, ref_id = ni, ref_name = nn\<rparr>],
                    gateway_object = \<lparr>ref_type = gt, ref_id = gi, ref_name = gn\<rparr>,
                    metricValue = metric r, route_type = ''IPv4StaticRoute'',
                    isTunneled = False\<rparr>],
                missing) \<and>
         interface r = split (strip l) ! 1 \<and> py_int (split (strip l) ! 5) = Some (metric r)"
proof -
  have b: "build_route r net_obj gw_obj =
             Inr \<lparr>interfaceName = interface r,
                  selectedNetworks = [\<lparr>ref_type = nt, ref_id = ni, ref_name = nn\<rparr>],
                  gateway_object = \<lparr>ref_type = gt, ref_id = gi, ref_name = gn\<rparr>,
                  metricValue = metric r, route_type = ''IPv4StaticRoute'',
                  isTunneled = False\<rparr>"
    using assms(4-9) by (simp add: build_route_def object_ref_of_def)
  have "snd (resolve_route self r (routes, missing)) =
          Inr (routes @
                 [\<lparr>interfaceName = interface r,
                   selectedNetworks = [\<lparr>ref_type = nt, ref_id = ni, ref_name = nn\<rparr>],
                   gateway_object = \<lparr>ref_type = gt, ref_id = gi, ref_name = gn\<rparr>,
                   metricValue = metric r, route_type = ''IPv4StaticRoute'',
                   isTunneled = False\<rparr>],
               missing)"
    using assms(2,3)
    by (cases "find_or_create_object self (gateway r) None";
        cases "find_or_create_object self (network r) (Some (netmask r))")
       (simp add: resolve_route_def b)
  moreover have "interface r = split (strip l) ! 1 \<and>
                 py_int (split (strip l) ! 5) = Some (metric r)"
    using assms(1) by (auto simp: parse_line_def Let_def split: if_splits option.splits)
  ultimately show ?thesis
    using assms(1) by (simp add: route_step_def)
qed

theorem payload_of_resolved_intent_witness:
  "snd (route_step obj_catalog example_line ([], [])) = Inr ([] @ [example_route], []) \<and>
   py_int (split (strip example_line) ! 5) = Some 1"
proof -
  let ?r = "\<lparr>interface = ''inside'', network = ''10.1.1.0'', netmask = ''255.255.255.0'',
             gateway = ''10.1.1.1'', metric = 1\<rparr>"
  have p: "parse_line example_line = Inr (Some ?r)"
    by code_simp
  have g: "snd (find_or_create_object obj_catalog (gateway ?r) None) = Inr (Some obj_gw)"
    and n: "snd (find_or_create_object obj_catalog (network ?r) (Some (netmask ?r))) =
              Inr (Some obj_net)"
    by code_simp+
  have f: "map_of obj_net ''type'' = Some ''Network''" "map_of obj_net ''id'' = Some ''N1''"
    "map_of obj_net ''name'' = Some ''obj-10.1.1.0''"
    "map_of obj_gw ''type'' = Some ''Host''" "map_of obj_gw ''id'' = Some ''H1''"
    "map_of obj_gw ''name'' = Some ''obj-10.1.1.1''"
    by (simp_all add: obj_net_def obj_gw_def)
  show ?thesis
    using payload_of_resolved_intent [OF p g n f, of "[]" "[]"]
    by (simp add: example_route_def)
qed

text \<open>
  The worked example of the claim fails: with the network \<open>10.1.1.0\<close> named \<open>net-101\<close>
  and the host \<open>10.1.1.1\<close> named \<open>gw-111\<close> in the caches, the example line produces no
  route; the gateway is reported missing and the run ends.
\<close>

theorem worked_example_counterexample:
  "parse_and_prepare_routes spec_catalog [example_line] =
     ([CHR 0x0A # ''Parsing routes and matching objects...'',
       ''Warning: No existing object found for 10.1.1.1'',
       CHR 0x0A # ''WARNING: The following objects were not found in FMC:'',
       ''  - Gateway: 10.1.1.1'',
       CHR 0x0A # ''Please create these objects in FMC before proceeding.''],
      Inl (SystemExit 1))"
  by code_simp

text \<open>
  With the two objects named \<open>obj-10.1.1.0\<close> and \<open>obj-10.1.1.1\<close> the example line
  produces the route of the example, these names in its name fields.
\<close>

lemma worked_example_with_obj_names:
  "snd (parse_and_prepare_routes obj_catalog [example_line]) = Inr [example_route]"
  by code_simp

section \<open>Deployment\<close>

text \<open>The events of one submission that succeeds, and of one that fails.\<close>

lemma submit_ok:
  "post i r = None \<Longrightarrow> selectedNetworks r \<noteq> [] \<Longrightarrow>
   submit post tot i r =
     ([Post r,
       Print (''['' @ str_nat i @ ''/'' @ str_nat tot @ ''] Successfully deployed route to '' @
              ref_name (hd (selectedNetworks r)))] @
      (if i mod 10 = 0 then [Sleep 1] else []),
      Inr ())"
  by (cases "selectedNetworks r") (simp_all add: submit_def)

lemma submit_fails:
  "post i r \<noteq> None \<Longrightarrow> \<exists>evs e. submit post tot i r = (Post r # evs, Inl e) \<and>
     posts evs = [] \<and> (\<forall>n. Sleep n \<notin> set evs)"
  by (cases "selectedNetworks r") (auto simp: submit_def)

text \<open>
  The loop, when the first \<open>k\<close> submissions succeed and the next one, if there is one,
  fails: its events are those of the \<open>k\<close> submissions in order, followed by those of the
  failing one, and nothing after them.
\<close>

lemma deploy_loop_trace:
  assumes "k \<le> length routes"
    and "\<forall>j<k. post (i + j) (routes ! j) = None \<and> selectedNetworks (routes ! j) \<noteq> []"
    and "k < length routes \<longrightarrow> post (i + k) (routes ! k) \<noteq> None"
  shows "deploy_loop post tot i routes =
           (concat (map (\<lambda>j. fst (submit post tot (i + j) (routes ! j))) [0..<k]) @
              (if k < length routes then fst (submit post tot (i + k) (routes ! k)) else []),
            if k < length routes then snd (submit post tot (i + k) (routes ! k)) else Inr ())"
  using assms
proof (induction routes arbitrary: i k)
  case Nil
  then show ?case by simp
next
  case (Cons r rest)
  show ?case
  proof (cases k)
    case 0
    with Cons.prems(3) have "post i r \<noteq> None" by simp
    then obtain evs e where "submit post tot i r = (Post r # evs, Inl e)"
      using submit_fails [of post i r tot] by blast
    with 0 show ?thesis by simp
  next
    case (Suc k')
    have ok: "post i r = None" "selectedNetworks r \<noteq> []"
      using Cons.prems(2) Suc by force+
    have a: "k' \<le> length rest" using Cons.prems(1) Suc by simp
    have b: "\<forall>j<k'. post (Suc i + j) (rest ! j) = None \<and> selectedNetworks (rest ! j) \<noteq> []"
      using Cons.prems(2) Suc by force
    have c: "k' < length rest \<longrightarrow> post (Suc i + k') (rest ! k') \<noteq> None"
      using Cons.prems(3) Suc by simp
    note ih = Cons.IH [OF a b c]
    have s: "submit post tot i r =
               ([Post r,
                 Print (''['' @ str_nat i @ ''/'' @ str_nat tot @
                        ''] Successfully deployed route to '' @
                        ref_name (hd (selectedNetworks r)))] @
                (if i mod 10 = 0 then [Sleep 1] else []),
                Inr ())"
      using submit_ok [of post i r tot] ok by simp
    show ?thesis
      unfolding Suc
      by (simp add: s ih map_upt_Suc del: upt_Suc)
  qed
qed


text \<open>Every submission posts its own route once, so the posts of a run are a prefix of the routes.\<close>

lemma posts_append: "posts (xs @ ys) = posts xs @ posts ys"
  by (induction xs rule: posts.induct) simp_all

lemma posts_submit: "posts (fst (submit post tot i r)) = [r]"
  by (cases "post i r"; cases "selectedNetworks r") (simp_all add: submit_def)

lemma posts_deploy_loop:
  "\<exists>m\<le>length routes. posts (fst (deploy_loop post tot i routes)) = take m routes"
proof (induction routes arbitrary: i)
  case Nil
  then show ?case by simp
next
  case (Cons r rest)
  obtain evs res where s: "submit post tot i r = (evs, res)"
    by (cases "submit post tot i r")
  have p: "posts evs = [r]"
    using posts_submit [of post tot i r] s by simp
  show ?case
  proof (cases res)
    case (Inl e)
    then have "posts (fst (deploy_loop post tot i (r # rest))) = take 1 (r # rest)"
      using s p by simp
    then show ?thesis by (intro exI [of _ 1]) simp
  next
    case (Inr u)
    from Cons.IH [of "Suc i"] obtain m
      where m: "m \<le> length rest"
        "posts (fst (deploy_loop post tot (Suc i) rest)) = take m rest"
      by blast
    have "posts (fst (deploy_loop post tot i (r # rest))) = take (Suc m) (r # rest)"
      using s p Inr m(2) by (simp add: case_prod_beta posts_append)
    then show ?thesis using m(1) by (intro exI [of _ "Suc m"]) simp
  qed
qed

lemma posts_concat_submit:
  "k \<le> length routes \<Longrightarrow>
   posts (concat (map (\<lambda>j. fst (submit post tot (i + j) (routes ! j))) [0..<k])) =
     take k routes"
proof (induction k)
  case 0
  then show ?case by simp
next
  case (Suc k)
  then show ?case
    by (simp add: posts_append posts_submit take_Suc_conv_app_nth)
qed

lemma deploy_routes_unfold:
  "deploy_routes post routes =
     (Print (CHR 0x0A # ''Deploying '' @ str_nat (length routes) @ '' routes...'') #
        fst (deploy_loop post (length routes) 1 routes),
      snd (deploy_loop post (length routes) 1 routes))"
  by (simp add: deploy_routes_def Let_def case_prod_beta)

text \<open>
  Claim C4. The routes posted by \<open>deploy_routes\<close> are always the first \<open>m\<close> routes of
  its argument, in the order of the argument. When every submission succeeds, all routes
  are posted and the method returns. When the submission \<open>k\<close> (counted from 1) is the
  first to fail, the posts are exactly the routes 1 to \<open>k\<close>: the routes after \<open>k\<close> are
  never submitted, and the run ends with an error. A post is the only request the method
  makes, so nothing undoes the routes already applied.
\<close>

theorem deploy_in_order_fail_fast:
  "(\<exists>m\<le>length routes. posts (fst (deploy_routes post routes)) = take m routes) \<and>
   ((\<forall>j<length routes. post (Suc j) (routes ! j) = None \<and> selectedNetworks (routes ! j) \<noteq> [])
      \<longrightarrow> posts (fst (deploy_routes post routes)) = routes \<and>
          snd (deploy_routes post routes) = Inr ()) \<and>
   (1 \<le> k \<and> k \<le> length routes \<and>
    (\<forall>j<k - 1. post (Suc j) (routes ! j) = None \<and> selectedNetworks (routes ! j) \<noteq> []) \<and>
    post k (routes ! (k - 1)) \<noteq> None
      \<longrightarrow> posts (fst (deploy_routes post routes)) = take k routes \<and>
          (\<exists>e. snd (deploy_routes post routes) = Inl e))"
proof (intro conjI impI)
  show "\<exists>m\<le>length routes. posts (fst (deploy_routes post routes)) = take m routes"
    using posts_deploy_loop [of routes post "length routes" 1]
    by (simp add: deploy_routes_unfold)
next
  assume a: "\<forall>j<length routes. post (Suc j) (routes ! j) = None \<and>
               selectedNetworks (routes ! j) \<noteq> []"
  have "deploy_loop post (length routes) 1 routes =
          (concat (map (\<lambda>j. fst (submit post (length routes) (1 + j) (routes ! j)))
                     [0..<length routes]), Inr ())"
    using deploy_loop_trace [of "length routes" routes post 1 "length routes"] a by simp
  then show "posts (fst (deploy_routes post routes)) = routes"
    and "snd (deploy_routes post routes) = Inr ()"
    using posts_concat_submit [of "length routes" routes post "length routes" 1]
    by (simp_all add: deploy_routes_unfold)
next
  assume a: "1 \<le> k \<and> k \<le> length routes \<and>
      (\<forall>j<k - 1. post (Suc j) (routes ! j) = None \<and> selectedNetworks (routes ! j) \<noteq> []) \<and>
      post k (routes ! (k - 1)) \<noteq> None"
  then obtain k' where k: "k = Suc k'" by (cases k) auto
  obtain evs e
    where f: "submit post (length routes) k (routes ! k') = (Post (routes ! k') # evs, Inl e)"
      "posts evs = []"
    using submit_fails [of post k "routes ! k'" "length routes"] a k by auto
  have t: "deploy_loop post (length routes) (Suc 0) routes =
          (concat (map (\<lambda>j. fst (submit post (length routes) (Suc j) (routes ! j))) [0..<k']) @
             fst (submit post (length routes) (Suc k') (routes ! k')),
           snd (submit post (length routes) (Suc k') (routes ! k')))"
    using deploy_loop_trace [of k' routes post 1 "length routes"] a k by simp
  have p: "posts (concat (map (\<lambda>j. fst (submit post (length routes) (Suc j) (routes ! j)))
                            [0..<k'])) = take k' routes"
    using posts_concat_submit [of k' routes post "length routes" 1] a k by simp
  show "posts (fst (deploy_routes post routes)) = take k routes"
    using a k f p
    by (simp add: deploy_routes_unfold t posts_append take_Suc_conv_app_nth)
  show "\<exists>e. snd (deploy_routes post routes) = Inl e"
    using f k by (simp add: deploy_routes_unfold t)
qed


theorem deploy_in_order_fail_fast_witness:
  "posts (fst (deploy_routes (fail_at 2)
                 [example_route, example_route\<lparr>interfaceName := ''outside''\<rparr>,
                  example_route\<lparr>interfaceName := ''dmz''\<rparr>])) =
     [example_route, example_route\<lparr>interfaceName := ''outside''\<rparr>] \<and>
   snd (deploy_routes (fail_at 2)
          [example_route, example_route\<lparr>interfaceName := ''outside''\<rparr>,
           example_route\<lparr>interfaceName := ''dmz''\<rparr>]) = Inl (SystemExit 1) \<and>
   posts (fst (deploy_routes (fail_at 0)
                 [example_route, example_route\<lparr>interfaceName := ''outside''\<rparr>,
                  example_route\<lparr>interfaceName := ''dmz''\<rparr>])) =
     [example_route, example_route\<lparr>interfaceName := ''outside''\<rparr>,
      example_route\<lparr>interfaceName := ''dmz''\<rparr>]"
proof -
  let ?rs = "[example_route, example_route\<lparr>interfaceName := ''outside''\<rparr>,
              example_route\<lparr>interfaceName := ''dmz''\<rparr>]"
  have e: "snd (deploy_routes (fail_at 2) ?rs) = Inl (SystemExit 1)"
    by code_simp
  have a: "\<forall>j<length ?rs. fail_at 0 (Suc j) (?rs ! j) = None \<and> selectedNetworks (?rs ! j) \<noteq> []"
    by (auto simp: fail_at_def example_route_def nth_Cons split: nat.splits)
  have b: "1 \<le> (2::nat) \<and> 2 \<le> length ?rs \<and>
           (\<forall>j<2 - 1. fail_at 2 (Suc j) (?rs ! j) = None \<and> selectedNetworks (?rs ! j) \<noteq> []) \<and>
           fail_at 2 2 (?rs ! (2 - 1)) \<noteq> None"
    by (simp add: fail_at_def example_route_def)
  show ?thesis
    using deploy_in_order_fail_fast [of ?rs "fail_at 2" 2]
          deploy_in_order_fail_fast [of ?rs "fail_at 0" 0] a b e
    by simp
qed

text \<open>
  Claim C9, as the code has it. When the first \<open>k\<close> submissions succeed and the next
  one, if there is one, fails, the events of the run are the opening line, then for each
  of the \<open>k\<close> submissions its post and its progress line \<open>[i/total] ...\<close>, followed by
  the pause of one second exactly when its index \<open>i\<close> is divisible by 10, then the
  events of the failing submission, among which there is no pause. So the pause follows
  every tenth submission that succeeds, and a failed submission is followed by none.
\<close>

theorem pause_after_tenth_success:
  assumes "k \<le> length routes"
    and "\<forall>j<k. post (Suc j) (routes ! j) = None \<and> selectedNetworks (routes ! j) \<noteq> []"
    and "k < length routes \<longrightarrow> post (Suc k) (routes ! k) \<noteq> None"
  shows "fst (deploy_routes post routes) =
           Print (CHR 0x0A # ''Deploying '' @ str_nat (length routes) @ '' routes...'') #
           concat (map (\<lambda>j. [Post (routes ! j),
                              Print (''['' @ str_nat (Suc j) @ ''/'' @ str_nat (length routes) @
                                     ''] Successfully deployed route to '' @
                                     ref_name (hd (selectedNetworks (routes ! j))))] @
                             (if Suc j mod 10 = 0 then [Sleep 1] else []))
                     [0..<k]) @
           (if k < length routes then fst (submit post (length routes) (Suc k) (routes ! k))
            else []) \<and>
         (k < length routes \<longrightarrow>
            (\<forall>n. Sleep n \<notin> set (fst (submit post (length routes) (Suc k) (routes ! k)))))"
proof -
  have m: "map (\<lambda>j. fst (submit post (length routes) (Suc j) (routes ! j))) [0..<k] =
           map (\<lambda>j. [Post (routes ! j),
                      Print (''['' @ str_nat (Suc j) @ ''/'' @ str_nat (length routes) @
                             ''] Successfully deployed route to '' @
                             ref_name (hd (selectedNetworks (routes ! j))))] @
                     (if Suc j mod 10 = 0 then [Sleep 1] else []))
               [0..<k]"
  proof (rule map_cong [OF refl])
    fix j assume "j \<in> set [0..<k]"
    then have "post (Suc j) (routes ! j) = None" "selectedNetworks (routes ! j) \<noteq> []"
      using assms(2) by simp_all
    then show "fst (submit post (length routes) (Suc j) (routes ! j)) =
                 [Post (routes ! j),
                  Print (''['' @ str_nat (Suc j) @ ''/'' @ str_nat (length routes) @
                         ''] Successfully deployed route to '' @
                         ref_name (hd (selectedNetworks (routes ! j))))] @
                 (if Suc j mod 10 = 0 then [Sleep 1] else [])"
      using submit_ok [of post "Suc j" "routes ! j" "length routes"] by simp
  qed
  have t: "fst (deploy_loop post (length routes) (Suc 0) routes) =
          concat (map (\<lambda>j. fst (submit post (length routes) (Suc j) (routes ! j))) [0..<k]) @
             (if k < length routes then fst (submit post (length routes) (Suc k) (routes ! k))
              else [])"
    using deploy_loop_trace [of k routes post 1 "length routes"] assms by simp
  have n: "\<forall>n. Sleep n \<notin> set (fst (submit post (length routes) (Suc k) (routes ! k)))"
    if "k < length routes"
  proof -
    have "post (Suc k) (routes ! k) \<noteq> None" using assms(3) that by simp
    then show ?thesis
      using submit_fails [of post "Suc k" "routes ! k" "length routes"] by auto
  qed
  show ?thesis
    using n by (simp add: deploy_routes_unfold t m)
qed

theorem pause_after_tenth_success_witness:
  "fst (deploy_routes (fail_at 11) (replicate 11 example_route)) ! 21 = Sleep 1 \<and>
   fst (deploy_routes (fail_at 11) (replicate 11 example_route)) =
     Print (CHR 0x0A # ''Deploying '' @ str_nat (length (replicate 11 example_route)) @
            '' routes...'') #
     concat (map (\<lambda>j. [Post (replicate 11 example_route ! j),
                        Print (''['' @ str_nat (Suc j) @ ''/'' @
                               str_nat (length (replicate 11 example_route)) @
                               ''] Successfully deployed route to '' @
                               ref_name (hd (selectedNetworks (replicate 11 example_route ! j))))] @
                       (if Suc j mod 10 = 0 then [Sleep 1] else []))
               [0..<10]) @
     (if 10 < length (replicate 11 example_route)
      then fst (submit (fail_at 11) (length (replicate 11 example_route)) (Suc 10)
                  (replicate 11 example_route ! 10))
      else [])"
proof -
  have a: "10 \<le> length (replicate 11 example_route)"
    by simp
  have b: "\<forall>j<10. fail_at 11 (Suc j) (replicate 11 example_route ! j) = None \<and>
             selectedNetworks (replicate 11 example_route ! j) \<noteq> []"
    by (simp add: fail_at_def example_route_def)
  have c: "10 < length (replicate 11 example_route) \<longrightarrow>
             fail_at 11 (Suc 10) (replicate 11 example_route ! 10) \<noteq> None"
    by (simp add: fail_at_def)
  have d: "fst (deploy_routes (fail_at 11) (replicate 11 example_route)) ! 21 = Sleep 1"
    by code_simp
  show ?thesis
    using pause_after_tenth_success [OF a b c] d by blast
qed

text \<open>
  The claim as stated fails when the tenth submission is the one that fails: ten
  submissions are made and there is no pause in the run.
\<close>

theorem tenth_submission_fails_counterexample:
  "Sleep 1 \<notin> set (fst (deploy_routes (fail_at 10) (replicate 10 example_route))) \<and>
   length (posts (fst (deploy_routes (fail_at 10) (replicate 10 example_route)))) = 10 \<and>
   fail_at 10 10 example_route = Some ''500 Server Error''"
  by code_simp


section \<open>The batch\<close>

text \<open>
  The missing objects only grow, stay free of repetitions, and every new one is the
  gateway or the network descriptor of a parsed line.
\<close>

lemma resolve_route_missing:
  assumes "snd (resolve_route self r st) = Inr st'"
  shows "(distinct (snd st) \<longrightarrow> distinct (snd st')) \<and>
         set (snd st) \<subseteq> set (snd st') \<and>
         set (snd st') \<subseteq>
           set (snd st) \<union> {''Gateway: '' @ gateway r,
                             ''Network: '' @ network r @ ''/'' @ netmask r}"
  using assms
  by (cases "find_or_create_object self (gateway r) None";
      cases "find_or_create_object self (network r) (Some (netmask r))")
     (auto simp: resolve_route_def split: sum.splits option.splits)

lemma route_step_missing:
  assumes "snd (route_step self l st) = Inr st'"
  shows "(distinct (snd st) \<longrightarrow> distinct (snd st')) \<and>
         set (snd st) \<subseteq> set (snd st') \<and>
         (\<forall>d \<in> set (snd st') - set (snd st).
            \<exists>r. parse_line l = Inr (Some r) \<and>
                (d = ''Gateway: '' @ gateway r \<or>
                 d = ''Network: '' @ network r @ ''/'' @ netmask r))"
proof (cases "parse_line l")
  case (Inl e)
  then show ?thesis using assms by (simp add: route_step_def)
next
  case (Inr x)
  show ?thesis
  proof (cases x)
    case None
    then show ?thesis using assms Inr by (simp add: route_step_def)
  next
    case (Some r)
    then have "snd (resolve_route self r st) = Inr st'"
      using assms Inr by (simp add: route_step_def)
    from resolve_route_missing [OF this] show ?thesis
      using Inr Some by auto
  qed
qed

lemma for_lines_missing:
  assumes "snd (for_lines self f st) = Inr st'"
  shows "(distinct (snd st) \<longrightarrow> distinct (snd st')) \<and>
         set (snd st) \<subseteq> set (snd st') \<and>
         (\<forall>d \<in> set (snd st') - set (snd st).
            \<exists>l \<in> set f. \<exists>r. parse_line l = Inr (Some r) \<and>
                (d = ''Gateway: '' @ gateway r \<or>
                 d = ''Network: '' @ network r @ ''/'' @ netmask r))"
  using assms
proof (induction f arbitrary: st)
  case Nil
  then show ?case by simp
next
  case (Cons l ls)
  obtain out res where s: "route_step self l st = (out, res)"
    by (cases "route_step self l st")
  show ?case
  proof (cases res)
    case (Inl e)
    then show ?thesis using Cons.prems s by simp
  next
    case (Inr st1)
    then have r: "snd (for_lines self ls st1) = Inr st'"
      using Cons.prems s by (simp add: case_prod_beta)
    have a: "snd (route_step self l st) = Inr st1"
      using s Inr by simp
    note one = route_step_missing [OF a]
    note rest = Cons.IH [OF r]
    show ?thesis
    proof (intro conjI ballI impI)
      assume "distinct (snd st)"
      then show "distinct (snd st')" using one rest by blast
    next
      show "set (snd st) \<subseteq> set (snd st')" using one rest by blast
    next
      fix d assume d: "d \<in> set (snd st') - set (snd st)"
      show "\<exists>l' \<in> set (l # ls). \<exists>r. parse_line l' = Inr (Some r) \<and>
              (d = ''Gateway: '' @ gateway r \<or>
               d = ''Network: '' @ network r @ ''/'' @ netmask r)"
      proof (cases "d \<in> set (snd st1)")
        case True
        then have "d \<in> set (snd st1) - set (snd st)" using d by simp
        with one show ?thesis by auto
      next
        case False
        then have "d \<in> set (snd st') - set (snd st1)" using d by simp
        with rest show ?thesis by auto
      qed
    qed
  qed
qed

text \<open>\<open>sorted(missing_objects)\<close> on the list that represents the set.\<close>

lemma sort_distinct: "distinct xs \<Longrightarrow> sort xs = sorted_list_of_set (set xs)"
  by (simp add: sorted_list_of_set_sort_remdups distinct_remdups_id)

text \<open>
  Claim C2. When the loop has read the whole file and the missing objects are not empty,
  the method ends with \<open>sys.exit(1)\<close> and returns no route, whatever routes the loop
  had prepared. It prints, after the lines of the loop, the warning, one line per missing
  object in sorted order without repetition, and the closing line. Every missing object
  is \<open>Gateway: <value>\<close> or \<open>Network: <value>/<mask>\<close> for a parsed line of the file.
\<close>

theorem missing_references_reject_batch:
  assumes "snd (for_lines self f ([], [])) = Inr (routes, missing)"
    and "missing \<noteq> []"
  shows "snd (parse_and_prepare_routes self f) = Inl (SystemExit 1) \<and>
         fst (parse_and_prepare_routes self f) =
           (CHR 0x0A # ''Parsing routes and matching objects...'') #
           fst (for_lines self f ([], [])) @
           [CHR 0x0A # ''WARNING: The following objects were not found in FMC:''] @
           map (\<lambda>obj. ''  - '' @ obj) (sorted_list_of_set (set missing)) @
           [CHR 0x0A # ''Please create these objects in FMC before proceeding.''] \<and>
         (\<forall>d \<in> set missing.
            \<exists>l \<in> set f. \<exists>r. parse_line l = Inr (Some r) \<and>
                (d = ''Gateway: '' @ gateway r \<or>
                 d = ''Network: '' @ network r @ ''/'' @ netmask r))"
proof -
  obtain out where o: "for_lines self f ([], []) = (out, Inr (routes, missing))"
    using assms(1) by (cases "for_lines self f ([], [])") simp
  have m: "distinct missing \<and>
           (\<forall>d \<in> set missing.
              \<exists>l \<in> set f. \<exists>r. parse_line l = Inr (Some r) \<and>
                  (d = ''Gateway: '' @ gateway r \<or>
                   d = ''Network: '' @ network r @ ''/'' @ netmask r))"
    using for_lines_missing [OF assms(1)] by simp
  then have "sort missing = sorted_list_of_set (set missing)"
    by (simp add: sort_distinct)
  then show ?thesis
    using o assms(2) m by (simp add: parse_and_prepare_routes_def)
qed

theorem missing_references_reject_batch_witness:
  "snd (for_lines obj_catalog
          [example_line, ''route inside 10.2.0.0 255.255.0.0 10.9.9.9 1'',
           ''route inside 10.2.0.0 255.255.0.0 10.1.1.1 5'',
           ''route outside 10.3.0.0 255.255.0.0 10.9.9.9 1''] ([], [])) =
     Inr ([example_route], [''Network: 10.2.0.0/255.255.0.0'', ''Gateway: 10.9.9.9'']) \<and>
   snd (parse_and_prepare_routes obj_catalog
          [example_line, ''route inside 10.2.0.0 255.255.0.0 10.9.9.9 1'',
           ''route inside 10.2.0.0 255.255.0.0 10.1.1.1 5'',
           ''route outside 10.3.0.0 255.255.0.0 10.9.9.9 1'']) = Inl (SystemExit 1) \<and>
   sorted_list_of_set (set [''Network: 10.2.0.0/255.255.0.0'', ''Gateway: 10.9.9.9'']) =
     [''Gateway: 10.9.9.9'', ''Network: 10.2.0.0/255.255.0.0'']"
proof -
  let ?f = "[example_line, ''route inside 10.2.0.0 255.255.0.0 10.9.9.9 1'',
             ''route inside 10.2.0.0 255.255.0.0 10.1.1.1 5'',
             ''route outside 10.3.0.0 255.255.0.0 10.9.9.9 1'']"
  have a: "snd (for_lines obj_catalog ?f ([], [])) =
             Inr ([example_route], [''Network: 10.2.0.0/255.255.0.0'', ''Gateway: 10.9.9.9''])"
    by code_simp
  have b: "[''Network: 10.2.0.0/255.255.0.0'', ''Gateway: 10.9.9.9''] \<noteq> []"
    by simp
  have c: "sorted_list_of_set (set [''Network: 10.2.0.0/255.255.0.0'', ''Gateway: 10.9.9.9'']) =
             [''Gateway: 10.9.9.9'', ''Network: 10.2.0.0/255.255.0.0'']"
    by code_simp
  show ?thesis
    using missing_references_reject_batch [OF a b] a c by blast
qed

text \<open>
  The same law read from the result: when the method returns routes, no parsed line of
  the file had a gateway or a network that was not found.
\<close>

lemma route_step_miss:
  assumes "parse_line l = Inr (Some r)"
    and "snd (find_or_create_object self (gateway r) None) = Inr None \<or>
         snd (find_or_create_object self (network r) (Some (netmask r))) = Inr None"
    and "snd (route_step self l st) = Inr st'"
  shows "snd st' \<noteq> []"
  using assms
  by (cases "find_or_create_object self (gateway r) None";
      cases "find_or_create_object self (network r) (Some (netmask r))")
     (auto simp: route_step_def resolve_route_def List.insert_def
           split: sum.splits option.splits if_splits)

lemma all_or_nothing:
  assumes "snd (parse_and_prepare_routes self f) = Inr routes"
    and "l \<in> set f" and "parse_line l = Inr (Some r)"
  shows "snd (find_or_create_object self (gateway r) None) \<noteq> Inr None \<and>
         snd (find_or_create_object self (network r) (Some (netmask r))) \<noteq> Inr None"
proof -
  obtain out res where o: "for_lines self f ([], []) = (out, res)"
    by (cases "for_lines self f ([], [])")
  have e: "res = Inr (routes, [])"
    using assms(1) o
    by (cases res) (auto simp: parse_and_prepare_routes_def split: if_splits)
  obtain pre post where f: "f = pre @ l # post"
    using assms(2) by (auto simp: in_set_conv_decomp)
  obtain out1 res1 where p: "for_lines self pre ([], []) = (out1, res1)"
    by (cases "for_lines self pre ([], [])")
  obtain st1 where r1: "res1 = Inr st1"
    using o e p unfolding f by (cases res1) (simp_all add: for_lines_append)
  obtain out2 res2 where s: "route_step self l st1 = (out2, res2)"
    by (cases "route_step self l st1")
  obtain st2 where r2: "res2 = Inr st2"
    using o e p r1 s unfolding f by (cases res2) (simp_all add: for_lines_append)
  have "snd (for_lines self post st2) = Inr (routes, [])"
    using o e p r1 s r2 unfolding f by (simp add: for_lines_append case_prod_beta)
  from for_lines_missing [OF this] have "snd st2 = []"
    by simp
  moreover have "snd (route_step self l st1) = Inr st2"
    using s r2 by simp
  ultimately show ?thesis
    using route_step_miss [OF assms(3) _ \<open>snd (route_step self l st1) = Inr st2\<close>] by blast
qed

end
